theory Spec2Isabelle
  imports Main "HOL-Library.Sublist"
begin

section \<open>Text primitives of the host language\<close>

text \<open>
  Text is modelled over the 8-bit characters of \<open>string\<close>, each read as the code unit
  U+0000..U+00FF it names. \<open>trim\<close>, \<open>toLowerCase\<close> and \<open>includes_str\<close> (String.includes) are the
  String methods the handlers call, restricted to that range.
\<close>

definition isWhitespace :: "char \<Rightarrow> bool" where
  "isWhitespace c = (of_char c \<in> {9, 10, 11, 12, 13, 32, 160 :: nat})"

definition trim :: "string \<Rightarrow> string" where
  "trim s = rev (dropWhile isWhitespace (rev (dropWhile isWhitespace s)))"

definition toLowerCase_char :: "char \<Rightarrow> char" where
  "toLowerCase_char c =
     (let n = of_char c :: nat
      in if (65 \<le> n \<and> n \<le> 90) \<or> (192 \<le> n \<and> n \<le> 222 \<and> n \<noteq> 215)
         then char_of (n + 32) else c)"

definition toLowerCase :: "string \<Rightarrow> string" where
  "toLowerCase s = map toLowerCase_char s"

fun includes_str :: "string \<Rightarrow> string \<Rightarrow> bool" where
  "includes_str [] sub = (sub = [])"
| "includes_str (c # cs) sub = (prefix sub (c # cs) \<or> includes_str cs sub)"

text \<open>Truthiness of a string, and of a \<open>string | null | undefined\<close> value.\<close>

definition truthy :: "string \<Rightarrow> bool" where
  "truthy s = (s \<noteq> [])"

definition present :: "string option \<Rightarrow> bool" where
  "present v = (case v of None \<Rightarrow> False | Some s \<Rightarrow> truthy s)"

text \<open>\<open>v || d\<close> on an optional string with a string default.\<close>

definition or_default :: "string option \<Rightarrow> string \<Rightarrow> string" where
  "or_default v d = (case v of None \<Rightarrow> d | Some s \<Rightarrow> if truthy s then s else d)"

text \<open>A string interpolated into a template literal: \<open>undefined\<close> prints as such.\<close>

definition interpolate :: "string option \<Rightarrow> string" where
  "interpolate v = (case v of None \<Rightarrow> ''undefined'' | Some s \<Rightarrow> s)"

text \<open>\<open>image.split(',')[1] || image\<close>: the text between the first and the second comma,
  or the whole string when there is no comma or that text is empty.\<close>

definition strip_data_uri :: "string \<Rightarrow> string" where
  "strip_data_uri s =
     (case dropWhile (\<lambda>c. c \<noteq> CHR '','') s of
        [] \<Rightarrow> s
      | _ # after \<Rightarrow>
          (let seg = takeWhile (\<lambda>c. c \<noteq> CHR '','') after
           in if truthy seg then seg else s))"

section \<open>types.ts\<close>

datatype role = User | Model

record grounding_url =
  title :: string
  uri :: string

record message =
  role :: role
  text_msg :: "string option"
  image_msg :: "string option"
  isThinking :: "bool option"
  groundingUrls :: "grounding_url list option"
  audioData :: "string option"

datatype image_size = Size1K | Size2K | Size4K

record imageGenSettings =
  aspectRatio :: string
  size_gen :: image_size
  prompt_gen :: string

definition size_label :: "image_size \<Rightarrow> string" where
  "size_label z = (case z of Size1K \<Rightarrow> ''1K'' | Size2K \<Rightarrow> ''2K'' | Size4K \<Rightarrow> ''4K'')"

section \<open>The AI service and its wrappers (geminiService)\<close>

text \<open>A rejected or throwing SDK call.\<close>

datatype js_error = Thrown string

datatype req_part = InlinePart string string | TextPart string

record gc_request =
  gc_model :: string
  gc_parts :: "req_part list"
  imageConfig :: "(image_size \<times> string) option"

record inline_data =
  mimeType :: "string option"
  data :: "string option"

record part =
  inlineData :: "inline_data option"
  part_text :: "string option"

record content =
  parts :: "part list option"

record candidate =
  content_of :: "content option"

record gc_response =
  candidates :: "candidate list option"

datatype tool = GoogleSearch

record chat_config =
  thinkingConfig :: "nat option"
  tools :: "tool list option"

record history_turn =
  turn_role :: role
  turn_parts :: "req_part list"

record chat_request =
  modelName :: string
  config :: chat_config
  history_req :: "history_turn list"
  userParts :: "req_part list"

record web_source =
  web_title :: "string option"
  web_uri :: "string option"

record grounding_chunk =
  web :: "web_source option"

text \<open>One chunk of the reply stream: its text, and the value of
  \<open>chunk.candidates?.[0]?.groundingMetadata?.groundingChunks\<close>.\<close>

record stream_chunk =
  chunk_text :: "string option"
  chunk_grounding :: "grounding_chunk list option"

text \<open>The remote service is an opaque collaborator: each of the two SDK entry points
  either throws or answers. Obtaining the client (\<open>getAI\<close>) and creating the chat
  session are taken as part of the call.\<close>

record service =
  generateContent :: "gc_request \<Rightarrow> js_error + gc_response"
  sendMessageStream :: "chat_request \<Rightarrow> js_error + stream_chunk list"

record chat_options =
  history :: "history_turn list"
  message_opt :: string
  image_opt :: "string option"
  useThinking_opt :: bool
  useSearch_opt :: bool

record chat_result =
  result_text :: string
  groundingChunks :: "grounding_chunk list"

text \<open>Model selection and configuration of \<open>sendMessage\<close>.\<close>

definition select_model :: "bool \<Rightarrow> bool \<Rightarrow> string \<times> chat_config" where
  "select_model useThinking useSearch =
     (if useThinking
      then (''gemini-3-pro-preview'', \<lparr>thinkingConfig = Some 32768, tools = None\<rparr>)
      else if useSearch
      then (''gemini-2.5-flash'', \<lparr>thinkingConfig = None, tools = Some [GoogleSearch]\<rparr>)
      else (''gemini-3-pro-preview'', \<lparr>thinkingConfig = None, tools = None\<rparr>))"

definition sendMessage_request :: "chat_options \<Rightarrow> chat_request" where
  "sendMessage_request opts =
     (let (name, cfg) = select_model (useThinking_opt opts) (useSearch_opt opts);
          textParts = [TextPart (message_opt opts)];
          ps = (case image_opt opts of
                  None \<Rightarrow> textParts
                | Some img \<Rightarrow>
                    if truthy img
                    then InlinePart ''image/png'' (strip_data_uri img) # textParts
                    else textParts)
      in \<lparr>modelName = name, config = cfg, history_req = history opts, userParts = ps\<rparr>)"

text \<open>The \<open>for await\<close> loop over the reply stream.\<close>

fun consume :: "stream_chunk list \<Rightarrow> string \<Rightarrow> grounding_chunk list \<Rightarrow> chat_result" where
  "consume [] fullText gs = \<lparr>result_text = fullText, groundingChunks = gs\<rparr>"
| "consume (c # cs) fullText gs =
     consume cs
       (case chunk_text c of
          None \<Rightarrow> fullText
        | Some t \<Rightarrow> if truthy t then fullText @ t else fullText)
       (case chunk_grounding c of None \<Rightarrow> gs | Some gs' \<Rightarrow> gs')"

definition sendMessage :: "service \<Rightarrow> chat_options \<Rightarrow> js_error + chat_result" where
  "sendMessage svc opts =
     (case sendMessageStream svc (sendMessage_request opts) of
        Inl e \<Rightarrow> Inl e
      | Inr chunks \<Rightarrow> Inr (consume chunks [] []))"

text \<open>\<open>response.candidates?.[0]?.content?.parts || []\<close>.\<close>

definition response_parts :: "gc_response \<Rightarrow> part list" where
  "response_parts r =
     (case candidates r of
        None \<Rightarrow> []
      | Some [] \<Rightarrow> []
      | Some (c # _) \<Rightarrow>
          (case content_of c of
             None \<Rightarrow> []
           | Some ct \<Rightarrow> (case parts ct of None \<Rightarrow> [] | Some ps \<Rightarrow> ps)))"

definition data_uri :: "inline_data \<Rightarrow> string" where
  "data_uri d = ''data:'' @ interpolate (mimeType d) @ '';base64,'' @ interpolate (data d)"

text \<open>The loop that returns the first inline image of a response, or null.\<close>

fun first_inline :: "part list \<Rightarrow> string option" where
  "first_inline [] = None"
| "first_inline (p # ps) =
     (case inlineData p of Some d \<Rightarrow> Some (data_uri d) | None \<Rightarrow> first_inline ps)"

definition editImage_request :: "string \<Rightarrow> string \<Rightarrow> gc_request" where
  "editImage_request base64Image prompt =
     \<lparr>gc_model = ''gemini-2.5-flash-image'',
      gc_parts = [InlinePart ''image/png'' (strip_data_uri base64Image), TextPart prompt],
      imageConfig = None\<rparr>"

definition editImage :: "service \<Rightarrow> string \<Rightarrow> string \<Rightarrow> js_error + string option" where
  "editImage svc base64Image prompt =
     (case generateContent svc (editImage_request base64Image prompt) of
        Inl e \<Rightarrow> Inl e
      | Inr response \<Rightarrow> Inr (first_inline (response_parts response)))"

definition generateImage_request :: "string \<Rightarrow> image_size \<Rightarrow> string \<Rightarrow> gc_request" where
  "generateImage_request prompt sz ratio =
     \<lparr>gc_model = ''gemini-3-pro-image-preview'',
      gc_parts = [TextPart prompt],
      imageConfig = Some (sz, ratio)\<rparr>"

definition generateImage ::
  "service \<Rightarrow> string \<Rightarrow> image_size \<Rightarrow> string \<Rightarrow> js_error + string option" where
  "generateImage svc prompt sz ratio =
     (case generateContent svc (generateImage_request prompt sz ratio) of
        Inl e \<Rightarrow> Inl e
      | Inr response \<Rightarrow> Inr (first_inline (response_parts response)))"

section \<open>ChatInterface: component state and handlers\<close>

record chat_state =
  input :: string
  messages :: "message list"
  isLoading :: bool
  useThinking :: bool
  useSearch :: bool
  showGenModal :: bool
  genSettings :: imageGenSettings

text \<open>An object literal of type Message; the fields the handlers never set stay undefined.\<close>

definition mk_message ::
  "role \<Rightarrow> string option \<Rightarrow> string option \<Rightarrow> grounding_url list option \<Rightarrow> message" where
  "mk_message r t i g =
     \<lparr>role = r, text_msg = t, image_msg = i, isThinking = None, groundingUrls = g,
      audioData = None\<rparr>"

definition initial_chat :: chat_state where
  "initial_chat =
     \<lparr>input = '''',
      messages =
        [mk_message Model
           (Some ''Welcome to Arckitek. Load a model, capture the viewport, or upload an image to analyze.'')
           None None],
      isLoading = False, useThinking = False, useSearch = False, showGenModal = False,
      genSettings = \<lparr>aspectRatio = ''1:1'', size_gen = Size1K, prompt_gen = ''''\<rparr>\<rparr>"

text \<open>The call a send makes, with its arguments: \<open>editImage\<close> or \<open>sendMessage\<close>.\<close>

datatype send_call = CallEdit string string | CallChat chat_options

text \<open>What a call in flight keeps of the handler that made it: for a send, the
  \<open>initialImage\<close> of its closure and the branch taken; for a generation, the settings.\<close>

datatype pending_call =
    PendingSend "string option" send_call
  | PendingGen string image_size string

definition userMsg_of :: "string option \<Rightarrow> string \<Rightarrow> message" where
  "userMsg_of initialImage inp =
     mk_message User (Some inp) (if present initialImage then initialImage else None) None"

definition isEditRequest :: "string option \<Rightarrow> string \<Rightarrow> bool" where
  "isEditRequest initialImage inp =
     (present initialImage \<and>
      (includes_str (toLowerCase inp) ''add'' \<or> includes_str (toLowerCase inp) ''remove'' \<or>
       includes_str (toLowerCase inp) ''change'' \<or> includes_str (toLowerCase inp) ''filter''))"

definition history_of :: "message list \<Rightarrow> history_turn list" where
  "history_of ms =
     map (\<lambda>m. \<lparr>turn_role = role m, turn_parts = [TextPart (or_default (text_msg m) '''')]\<rparr>) ms"

definition send_call_of :: "string option \<Rightarrow> chat_state \<Rightarrow> send_call" where
  "send_call_of initialImage st =
     (let userMsg = userMsg_of initialImage (input st);
          chatCall =
            CallChat
              \<lparr>history = history_of (messages st),
               message_opt = or_default (text_msg userMsg) ''Analyze this image'',
               image_opt = image_msg userMsg,
               useThinking_opt = useThinking st,
               useSearch_opt = useSearch st\<rparr>
      in case initialImage of
           None \<Rightarrow> chatCall
         | Some img \<Rightarrow>
             if isEditRequest initialImage (input st) \<and> truthy img
             then CallEdit img (or_default (text_msg userMsg) ''Make requested edits'')
             else chatCall)"

text \<open>\<open>handleSend\<close> up to its await: the guard, the three state updates, and the call
  it starts (none when the guard returns).\<close>

definition handleSend_begin ::
  "string option \<Rightarrow> chat_state \<Rightarrow> chat_state \<times> pending_call option" where
  "handleSend_begin initialImage st =
     (if \<not> truthy (trim (input st)) \<and> \<not> present initialImage then (st, None)
      else
        (st\<lparr>messages := messages st @ [userMsg_of initialImage (input st)],
            input := '''',
            isLoading := True\<rparr>,
         Some (PendingSend initialImage (send_call_of initialImage st))))"

definition to_grounding_url :: "grounding_chunk \<Rightarrow> grounding_url" where
  "to_grounding_url c =
     (case web c of
        None \<Rightarrow> \<lparr>title = ''Source'', uri = ''''\<rparr>
      | Some w \<Rightarrow>
          \<lparr>title = or_default (web_title w) ''Source'', uri = or_default (web_uri w) ''''\<rparr>)"

definition append_message :: "message \<Rightarrow> chat_state \<Rightarrow> chat_state" where
  "append_message m st = st\<lparr>messages := messages st @ [m]\<rparr>"

text \<open>The body of the \<open>try\<close> of \<open>handleSend\<close> with its \<open>catch\<close>: the awaited call settles
  (\<open>Inl\<close> when it throws) and one model message is appended.\<close>

definition handleSend_try :: "service \<Rightarrow> send_call \<Rightarrow> chat_state \<Rightarrow> chat_state" where
  "handleSend_try svc c st =
     (case c of
        CallEdit img prompt \<Rightarrow>
          (case editImage svc img prompt of
             Inl e \<Rightarrow>
               append_message (mk_message Model (Some ''Sorry, I encountered an error.'') None None) st
           | Inr editedImage \<Rightarrow>
               if present editedImage
               then append_message
                      (mk_message Model (Some ''Here is the edited visualization.'') editedImage None) st
               else append_message
                      (mk_message Model
                         (Some ''I tried to edit the image but couldn't generate a result.'') None None) st)
      | CallChat opts \<Rightarrow>
          (case sendMessage svc opts of
             Inl e \<Rightarrow>
               append_message (mk_message Model (Some ''Sorry, I encountered an error.'') None None) st
           | Inr streamResponse \<Rightarrow>
               append_message
                 (mk_message Model (Some (result_text streamResponse)) None
                    (Some (map to_grounding_url (groundingChunks streamResponse)))) st))"

text \<open>\<open>handleSend\<close> from its await on, \<open>finally\<close> included. The second component tells
  whether \<open>onClearImage\<close> is invoked.\<close>

definition handleSend_resume ::
  "service \<Rightarrow> string option \<Rightarrow> send_call \<Rightarrow> chat_state \<Rightarrow> chat_state \<times> bool" where
  "handleSend_resume svc initialImage c st =
     ((handleSend_try svc c st)\<lparr>isLoading := False\<rparr>, present initialImage)"

definition handleGenImage_begin :: "chat_state \<Rightarrow> chat_state \<times> pending_call" where
  "handleGenImage_begin st =
     (st\<lparr>showGenModal := False,
         isLoading := True,
         messages := messages st @
           [mk_message User
              (Some (''Generate '' @ size_label (size_gen (genSettings st)) @ '' image: '' @
                     prompt_gen (genSettings st)))
              None None]\<rparr>,
      PendingGen (prompt_gen (genSettings st)) (size_gen (genSettings st))
        (aspectRatio (genSettings st)))"

definition handleGenImage_resume ::
  "service \<Rightarrow> string \<Rightarrow> image_size \<Rightarrow> string \<Rightarrow> chat_state \<Rightarrow> chat_state" where
  "handleGenImage_resume svc prompt sz ratio st =
     (case generateImage svc prompt sz ratio of
        Inl e \<Rightarrow>
          append_message (mk_message Model (Some ''Error generating image.'') None None) st
      | Inr img \<Rightarrow>
          if present img
          then append_message (mk_message Model (Some ''Generated concept.'') img None) st
          else append_message (mk_message Model (Some ''Failed to generate image.'') None None) st)
     \<lparr>isLoading := False\<rparr>"

section \<open>App: the state the components share\<close>

record app_state =
  capturedImage :: "string option"
  isEditing :: bool
  showLinkInput :: bool
  splineUrl :: string
  tempUrl :: string

definition initial_app :: app_state where
  "initial_app =
     \<lparr>capturedImage = None, isEditing = False, showLinkInput = False, splineUrl = '''',
      tempUrl = ''''\<rparr>"

definition onClearImage :: "app_state \<Rightarrow> app_state" where
  "onClearImage a = a\<lparr>capturedImage := None\<rparr>"

definition handleEditorSave :: "string \<Rightarrow> app_state \<Rightarrow> app_state" where
  "handleEditorSave newImg a = a\<lparr>capturedImage := Some newImg, isEditing := False\<rparr>"

definition onCancel :: "app_state \<Rightarrow> app_state" where
  "onCancel a = a\<lparr>isEditing := False\<rparr>"

section \<open>The chat panel as an event-driven machine\<close>

text \<open>
  Execution is single-threaded: a handler runs to its await, the call it started is in
  flight until it settles, and the rest of the handler runs then. Other events may come
  in between. The component renders between events, so a handler reads the current state.
\<close>

record ui =
  app :: app_state
  chat :: chat_state
  pending :: "pending_call list"

definition initial_ui :: ui where
  "initial_ui = \<lparr>app = initial_app, chat = initial_chat, pending = []\<rparr>"

datatype event =
    TypeInput string
  | PressEnter
  | ClickSend
  | ToggleThinking
  | ToggleSearch
  | ToggleGenModal
  | SetGenPrompt string
  | SetGenSize image_size
  | SetGenAspect string
  | ClickGenerate
  | ClickRemove
  | Upload string
  | Settle nat service

definition start_send :: "ui \<Rightarrow> ui" where
  "start_send s =
     (case handleSend_begin (capturedImage (app s)) (chat s) of
        (st, None) \<Rightarrow> s\<lparr>chat := st\<rparr>
      | (st, Some c) \<Rightarrow> s\<lparr>chat := st, pending := pending s @ [c]\<rparr>)"

definition start_gen :: "ui \<Rightarrow> ui" where
  "start_gen s =
     (case handleGenImage_begin (chat s) of
        (st, c) \<Rightarrow> s\<lparr>chat := st, pending := pending s @ [c]\<rparr>)"

definition remove_nth :: "nat \<Rightarrow> 'a list \<Rightarrow> 'a list" where
  "remove_nth i xs = take i xs @ drop (Suc i) xs"

definition settle :: "service \<Rightarrow> pending_call \<Rightarrow> ui \<Rightarrow> ui" where
  "settle svc c s =
     (case c of
        PendingSend initialImage call \<Rightarrow>
          (case handleSend_resume svc initialImage call (chat s) of
             (st, clear) \<Rightarrow> s\<lparr>chat := st, app := (if clear then onClearImage (app s) else app s)\<rparr>)
      | PendingGen prompt sz ratio \<Rightarrow>
          s\<lparr>chat := handleGenImage_resume svc prompt sz ratio (chat s)\<rparr>)"

text \<open>One event. The send button is disabled while \<open>isLoading\<close>; the Enter key of the
  input calls \<open>handleSend\<close> directly; the Generate button exists while the modal is
  shown, the Remove button while an image is attached.\<close>

fun step :: "event \<Rightarrow> ui \<Rightarrow> ui" where
  "step (TypeInput v) s = s\<lparr>chat := (chat s)\<lparr>input := v\<rparr>\<rparr>"
| "step PressEnter s = start_send s"
| "step ClickSend s = (if isLoading (chat s) then s else start_send s)"
| "step ToggleThinking s = s\<lparr>chat := (chat s)\<lparr>useThinking := \<not> useThinking (chat s)\<rparr>\<rparr>"
| "step ToggleSearch s = s\<lparr>chat := (chat s)\<lparr>useSearch := \<not> useSearch (chat s)\<rparr>\<rparr>"
| "step ToggleGenModal s = s\<lparr>chat := (chat s)\<lparr>showGenModal := \<not> showGenModal (chat s)\<rparr>\<rparr>"
| "step (SetGenPrompt v) s =
     (if showGenModal (chat s)
      then s\<lparr>chat := (chat s)\<lparr>genSettings := (genSettings (chat s))\<lparr>prompt_gen := v\<rparr>\<rparr>\<rparr>
      else s)"
| "step (SetGenSize v) s =
     (if showGenModal (chat s)
      then s\<lparr>chat := (chat s)\<lparr>genSettings := (genSettings (chat s))\<lparr>size_gen := v\<rparr>\<rparr>\<rparr>
      else s)"
| "step (SetGenAspect v) s =
     (if showGenModal (chat s)
      then s\<lparr>chat := (chat s)\<lparr>genSettings := (genSettings (chat s))\<lparr>aspectRatio := v\<rparr>\<rparr>\<rparr>
      else s)"
| "step ClickGenerate s = (if showGenModal (chat s) then start_gen s else s)"
| "step ClickRemove s =
     (if present (capturedImage (app s)) then s\<lparr>app := onClearImage (app s)\<rparr> else s)"
| "step (Upload v) s = s\<lparr>app := (app s)\<lparr>capturedImage := Some v\<rparr>\<rparr>"
| "step (Settle i svc) s =
     (if i < length (pending s)
      then (settle svc (pending s ! i) s)\<lparr>pending := remove_nth i (pending s)\<rparr>
      else s)"

fun run :: "event list \<Rightarrow> ui \<Rightarrow> ui" where
  "run [] s = s"
| "run (e # es) s = run es (step e s)"

datatype capability = Chat | Edit | Generate

definition capability_of :: "pending_call \<Rightarrow> capability" where
  "capability_of c =
     (case c of
        PendingSend _ (CallEdit _ _) \<Rightarrow> Edit
      | PendingSend _ (CallChat _) \<Rightarrow> Chat
      | PendingGen _ _ _ \<Rightarrow> Generate)"

section \<open>ImageEditor: component state, handlers and one editing session\<close>

record editor_state =
  prompt :: string
  isGenerating :: bool
  generatedImage :: "string option"
  error :: "string option"

definition initial_editor :: editor_state where
  "initial_editor = \<lparr>prompt = '''', isGenerating = False, generatedImage = None, error = None\<rparr>"

text \<open>\<open>handleGenerate\<close> up to its await: the guard, the two state updates, and the
  arguments of the \<open>editImage\<close> call it starts.\<close>

definition handleGenerate_begin ::
  "string \<Rightarrow> editor_state \<Rightarrow> editor_state \<times> (string \<times> string) option" where
  "handleGenerate_begin imageSrc ed =
     (if \<not> truthy (trim (prompt ed)) then (ed, None)
      else
        (ed\<lparr>isGenerating := True, error := None\<rparr>,
         Some (or_default (generatedImage ed) imageSrc, prompt ed)))"

text \<open>\<open>handleGenerate\<close> from its await on. The second component is the image given to
  \<open>setGeneratedImage\<close>, when the edit succeeded.\<close>

definition handleGenerate_resume ::
  "service \<Rightarrow> string \<Rightarrow> string \<Rightarrow> editor_state \<Rightarrow> editor_state \<times> string option" where
  "handleGenerate_resume svc sourceImage p ed =
     (case editImage svc sourceImage p of
        Inl e \<Rightarrow>
          (ed\<lparr>error := Some ''An error occurred during generation.'', isGenerating := False\<rparr>, None)
      | Inr None \<Rightarrow>
          (ed\<lparr>error := Some ''Could not generate edit. Try a different prompt.'',
              isGenerating := False\<rparr>, None)
      | Inr (Some result) \<Rightarrow>
          if truthy result
          then (ed\<lparr>generatedImage := Some result, prompt := '''', isGenerating := False\<rparr>,
                Some result)
          else (ed\<lparr>error := Some ''Could not generate edit. Try a different prompt.'',
                   isGenerating := False\<rparr>, None))"

text \<open>\<open>handleSave\<close>: the argument \<open>onSave\<close> is invoked with, if it is invoked.\<close>

definition handleSave :: "editor_state \<Rightarrow> string option" where
  "handleSave ed = (if present (generatedImage ed) then generatedImage ed else None)"

definition handleEditClick :: "app_state \<Rightarrow> app_state" where
  "handleEditClick a = (if present (capturedImage a) then a\<lparr>isEditing := True\<rparr> else a)"

text \<open>A session of the editor: the App state it reads its props from and writes through
  its callbacks, its own state, and its calls in flight (source image and prompt).\<close>

record editor_ui =
  ed_app :: app_state
  editor :: editor_state
  ed_pending :: "(string \<times> string) list"

text \<open>The editor is rendered while \<open>isEditing && capturedImage\<close>; \<open>imageSrc\<close> is the
  captured image.\<close>

definition mounted :: "editor_ui \<Rightarrow> bool" where
  "mounted s = (isEditing (ed_app s) \<and> present (capturedImage (ed_app s)))"

definition imageSrc :: "editor_ui \<Rightarrow> string" where
  "imageSrc s = or_default (capturedImage (ed_app s)) ''''"

definition open_session :: "app_state \<Rightarrow> editor_ui" where
  "open_session a = \<lparr>ed_app = handleEditClick a, editor = initial_editor, ed_pending = []\<rparr>"

datatype ed_event =
    EdType string
  | EdClickGenerate
  | EdPressEnter
  | EdRevert
  | EdClickSave
  | EdClose
  | EdSettle nat service

text \<open>What a step does to the outside: the \<open>editImage\<close> call it starts, the edit that
  succeeded in it, the callback of App it invokes.\<close>

datatype ed_action =
    CallsEditImage string string
  | EditSucceeded string
  | CallsOnSave string
  | CallsOnCancel

definition ed_start :: "editor_ui \<Rightarrow> editor_ui \<times> ed_action list" where
  "ed_start s =
     (case handleGenerate_begin (imageSrc s) (editor s) of
        (ed, None) \<Rightarrow> (s\<lparr>editor := ed\<rparr>, [])
      | (ed, Some (src, p)) \<Rightarrow>
          (s\<lparr>editor := ed, ed_pending := ed_pending s @ [(src, p)]\<rparr>, [CallsEditImage src p]))"

definition ed_settle :: "service \<Rightarrow> nat \<Rightarrow> editor_ui \<Rightarrow> editor_ui \<times> ed_action list" where
  "ed_settle svc i s =
     (case ed_pending s ! i of
        (src, p) \<Rightarrow>
          (case handleGenerate_resume svc src p (editor s) of
             (ed, done) \<Rightarrow>
               (s\<lparr>editor := ed, ed_pending := remove_nth i (ed_pending s)\<rparr>,
                case done of None \<Rightarrow> [] | Some g \<Rightarrow> [EditSucceeded g])))"

text \<open>One event of a session. An unmounted editor has no buttons and its state setters
  do nothing. The Generate button is disabled while generating or while the prompt is
  blank, the Save button while there is no generated image; the Revert button exists
  while there is one; the Enter key of the prompt calls \<open>handleGenerate\<close> directly.\<close>

definition ed_step :: "ed_event \<Rightarrow> editor_ui \<Rightarrow> editor_ui \<times> ed_action list" where
  "ed_step e s =
     (if \<not> mounted s then (s, [])
      else case e of
        EdType v \<Rightarrow> (s\<lparr>editor := (editor s)\<lparr>prompt := v\<rparr>\<rparr>, [])
      | EdClickGenerate \<Rightarrow>
          if isGenerating (editor s) \<or> \<not> truthy (trim (prompt (editor s))) then (s, [])
          else ed_start s
      | EdPressEnter \<Rightarrow> ed_start s
      | EdRevert \<Rightarrow>
          if present (generatedImage (editor s))
          then (s\<lparr>editor := (editor s)\<lparr>generatedImage := None\<rparr>\<rparr>, [])
          else (s, [])
      | EdClickSave \<Rightarrow>
          if \<not> present (generatedImage (editor s)) then (s, [])
          else (case handleSave (editor s) of
                  None \<Rightarrow> (s, [])
                | Some g \<Rightarrow> (s\<lparr>ed_app := handleEditorSave g (ed_app s)\<rparr>, [CallsOnSave g]))
      | EdClose \<Rightarrow> (s\<lparr>ed_app := onCancel (ed_app s)\<rparr>, [CallsOnCancel])
      | EdSettle i svc \<Rightarrow> if i < length (ed_pending s) then ed_settle svc i s else (s, []))"

fun ed_run :: "ed_event list \<Rightarrow> editor_ui \<Rightarrow> editor_ui \<times> ed_action list" where
  "ed_run [] s = (s, [])"
| "ed_run (e # es) s =
     (case ed_step e s of
        (s1, acts) \<Rightarrow> (case ed_run es s1 of (s2, rest) \<Rightarrow> (s2, acts @ rest)))"

section \<open>Notions the properties are stated with\<close>


text \<open>A service whose every call fails, and one that answers every content request with
  a text part only and every chat with an empty stream.\<close>

definition svc_down :: service where
  "svc_down =
     \<lparr>generateContent = (\<lambda>_. Inl (Thrown ''network'')),
      sendMessageStream = (\<lambda>_. Inl (Thrown ''network''))\<rparr>"

definition text_only :: gc_response where
  "text_only =
     \<lparr>candidates =
        Some [\<lparr>content_of =
                 Some \<lparr>parts = Some [\<lparr>inlineData = None, part_text = Some ''No image.''\<rparr>]\<rparr>\<rparr>]\<rparr>"

definition svc_empty :: service where
  "svc_empty =
     \<lparr>generateContent = (\<lambda>_. Inr text_only), sendMessageStream = (\<lambda>_. Inr [])\<rparr>"

text \<open>A service that answers every content request with one inline PNG.\<close>

definition svc_image :: "string \<Rightarrow> service" where
  "svc_image d =
     \<lparr>generateContent =
        (\<lambda>_. Inr \<lparr>candidates =
                   Some [\<lparr>content_of =
                            Some \<lparr>parts =
                                    Some [\<lparr>inlineData =
                                             Some \<lparr>mimeType = Some ''image/png'', data = Some d\<rparr>,
                                           part_text = None\<rparr>]\<rparr>\<rparr>]\<rparr>),
      sendMessageStream = (\<lambda>_. Inr [])\<rparr>"

text \<open>The events that start a call only through the button that \<open>isLoading\<close> disables.\<close>

definition gated :: "event \<Rightarrow> bool" where
  "gated e = (case e of PressEnter \<Rightarrow> False | ClickGenerate \<Rightarrow> False | _ \<Rightarrow> True)"

text \<open>The image a call in flight carries to the service.\<close>

definition sent_image :: "pending_call \<Rightarrow> string option" where
  "sent_image c =
     (case c of
        PendingSend _ (CallEdit img _) \<Rightarrow> Some img
      | PendingSend _ (CallChat opts) \<Rightarrow> image_opt opts
      | PendingGen _ _ _ \<Rightarrow> None)"

text \<open>The App state after an upload.\<close>

definition uploaded :: app_state where
  "uploaded = initial_app\<lparr>capturedImage := Some ''data:image/png;base64,AAAA''\<rparr>"

text \<open>At most one call in flight, and \<open>isLoading\<close> while there is one.\<close>

definition one_in_flight :: "ui \<Rightarrow> bool" where
  "one_in_flight s = (pending s = [] \<or> (length (pending s) = 1 \<and> isLoading (chat s)))"

text \<open>A trace of a session in which every \<open>onSave\<close> passes an image that an earlier
  successful edit of the trace produced (\<open>seen\<close>: the images produced before).\<close>

fun saves_follow_edits :: "string list \<Rightarrow> ed_action list \<Rightarrow> bool" where
  "saves_follow_edits seen [] = True"
| "saves_follow_edits seen (EditSucceeded g # acts) = saves_follow_edits (g # seen) acts"
| "saves_follow_edits seen (CallsOnSave g # acts) = (g \<in> set seen \<and> saves_follow_edits seen acts)"
| "saves_follow_edits seen (_ # acts) = saves_follow_edits seen acts"

section \<open>Failures of the service are caught and shown to the user\<close>









section \<open>Calls in flight\<close>

text \<open>
  C2. At most one call to the service is in flight at any time, and \<open>isLoading\<close> is
  false again once it has settled. The send button is disabled while \<open>isLoading\<close>, but the
  Enter key and the Generate button call their handlers whatever \<open>isLoading\<close> is: from the
  initial state, typing and pressing Enter twice leaves two calls in flight, and so does a
  send followed by a generation; when the first of two calls settles, \<open>isLoading\<close> is false
  while the second is still in flight.
\<close>

theorem second_call_starts_while_loading:
  "isLoading (chat (run [TypeInput ''a'', PressEnter] initial_ui))
   \<and> length (pending (run [TypeInput ''a'', PressEnter] initial_ui)) = 1
   \<and> length (pending (run [TypeInput ''a'', PressEnter, TypeInput ''b'', PressEnter] initial_ui)) = 2
   \<and> length (pending (run [TypeInput ''a'', ClickSend, ToggleGenModal, ClickGenerate] initial_ui)) = 2
   \<and> \<not> isLoading (chat (run [TypeInput ''a'', PressEnter, TypeInput ''b'', PressEnter,
                                Settle 0 svc_empty] initial_ui))
   \<and> length (pending (run [TypeInput ''a'', PressEnter, TypeInput ''b'', PressEnter,
                              Settle 0 svc_empty] initial_ui)) = 1"
  by code_simp

text \<open>Through the send button alone the property holds: the button's guard keeps at most
  one call in flight.\<close>

lemma gated_step_one_in_flight:
  assumes "gated e" and "one_in_flight s"
  shows "one_in_flight (step e s)"
proof (cases e)
  case ClickSend
  show ?thesis
  proof (cases "isLoading (chat s)")
    case True
    with ClickSend assms show ?thesis by simp
  next
    case False
    with assms have "pending s = []" by (auto simp: one_in_flight_def)
    with ClickSend False show ?thesis
      by (simp add: one_in_flight_def start_send_def handleSend_begin_def)
  qed
next
  case (Settle i svc)
  show ?thesis
  proof (cases "i < length (pending s)")
    case True
    with assms have "length (pending s) = 1" by (auto simp: one_in_flight_def)
    with True have "remove_nth i (pending s) = []" by (simp add: remove_nth_def)
    with Settle True show ?thesis by (simp add: one_in_flight_def)
  next
    case False
    with Settle assms show ?thesis by simp
  qed
qed (use assms in \<open>auto simp: gated_def one_in_flight_def onClearImage_def\<close>)

lemma button_only_one_outstanding:
  assumes "list_all gated es" and "one_in_flight s"
  shows "length (pending (run es s)) \<le> 1"
proof -
  have "one_in_flight (run es s)"
    using assms
  proof (induction es arbitrary: s)
    case Nil
    then show ?case by simp
  next
    case (Cons e es)
    then show ?case by (simp add: gated_step_one_in_flight)
  qed
  then show ?thesis by (auto simp: one_in_flight_def)
qed

section \<open>Which capability a user action invokes\<close>

text \<open>A send on a blank input with no image attached starts no call at all.\<close>

theorem blank_send_invokes_nothing:
  "pending initial_ui = [] \<and> pending (step PressEnter initial_ui) = []"
  by code_simp

text \<open>
  C3 (amended). A send whose guard passes (the input is not blank, or an image is attached)
  starts exactly one call: \<open>editImage\<close> if an image is attached and the lowercased input
  contains 'add', 'remove', 'change' or 'filter', \<open>sendMessage\<close> otherwise. The enabled send
  button does what the Enter key does. A \<open>generateImage\<close> call enters the calls in flight
  only by the generate action.
\<close>

theorem send_invokes_one_capability:
  assumes "truthy (trim (input (chat s))) \<or> present (capturedImage (app s))"
  shows "(\<exists>c. pending (step PressEnter s) = pending s @ [c]
            \<and> capability_of c =
                (if present (capturedImage (app s)) \<and>
                    (includes_str (toLowerCase (input (chat s))) ''add'' \<or>
                     includes_str (toLowerCase (input (chat s))) ''remove'' \<or>
                     includes_str (toLowerCase (input (chat s))) ''change'' \<or>
                     includes_str (toLowerCase (input (chat s))) ''filter'')
                 then Edit else Chat))
         \<and> (\<not> isLoading (chat s) \<longrightarrow> step ClickSend s = step PressEnter s)
         \<and> (\<forall>e c. c \<in> set (pending (step e s)) \<and> capability_of c = Generate \<and> e \<noteq> ClickGenerate
                \<longrightarrow> c \<in> set (pending s))"
proof (intro conjI allI impI)
  show "\<exists>c. pending (step PressEnter s) = pending s @ [c]
            \<and> capability_of c =
                (if present (capturedImage (app s)) \<and>
                    (includes_str (toLowerCase (input (chat s))) ''add'' \<or>
                     includes_str (toLowerCase (input (chat s))) ''remove'' \<or>
                     includes_str (toLowerCase (input (chat s))) ''change'' \<or>
                     includes_str (toLowerCase (input (chat s))) ''filter'')
                 then Edit else Chat)"
    using assms
    by (auto simp: start_send_def handleSend_begin_def send_call_of_def capability_of_def
          isEditRequest_def present_def Let_def split: option.splits)
next
  assume "\<not> isLoading (chat s)"
  then show "step ClickSend s = step PressEnter s" by simp
next
  fix e c
  assume h: "c \<in> set (pending (step e s)) \<and> capability_of c = Generate \<and> e \<noteq> ClickGenerate"
  show "c \<in> set (pending s)"
  proof (cases e)
    case PressEnter
    with h show ?thesis
      by (auto simp: start_send_def handleSend_begin_def send_call_of_def capability_of_def
            Let_def split: option.splits if_splits)
  next
    case ClickSend
    with h show ?thesis
      by (auto simp: start_send_def handleSend_begin_def send_call_of_def capability_of_def
            Let_def split: option.splits if_splits)
  next
    case (Settle i svc)
    with h show ?thesis
      by (auto simp: remove_nth_def split: if_splits dest: in_set_takeD in_set_dropD)
  qed (use h in \<open>auto split: if_splits\<close>)
qed

theorem send_invokes_one_capability_witness:
  "present (capturedImage (app (run [Upload ''data:image/png;base64,AAAA'',
                                     TypeInput ''Please ADD a tower''] initial_ui)))
   \<and> map capability_of
         (pending (step PressEnter (run [Upload ''data:image/png;base64,AAAA'',
                                         TypeInput ''Please ADD a tower''] initial_ui))) = [Edit]
   \<and> step ClickSend (run [Upload ''data:image/png;base64,AAAA'',
                           TypeInput ''Please ADD a tower''] initial_ui)
       = step PressEnter (run [Upload ''data:image/png;base64,AAAA'',
                               TypeInput ''Please ADD a tower''] initial_ui)
   \<and> truthy (trim (input (chat (run [TypeInput ''What is this?''] initial_ui))))
   \<and> map capability_of
         (pending (step PressEnter (run [TypeInput ''What is this?''] initial_ui))) = [Chat]
   \<and> truthy (trim (input (chat (run [ToggleGenModal, ClickGenerate, TypeInput ''hi''] initial_ui))))
   \<and> PendingGen '''' Size1K ''1:1''
       \<in> set (pending (step PressEnter (run [ToggleGenModal, ClickGenerate, TypeInput ''hi''] initial_ui)))
   \<and> PendingGen '''' Size1K ''1:1''
       \<in> set (pending (run [ToggleGenModal, ClickGenerate, TypeInput ''hi''] initial_ui))"
proof -
  let ?s = "run [Upload ''data:image/png;base64,AAAA'', TypeInput ''Please ADD a tower''] initial_ui"
  let ?t = "run [TypeInput ''What is this?''] initial_ui"
  let ?u = "run [ToggleGenModal, ClickGenerate, TypeInput ''hi''] initial_ui"
  have hs: "present (capturedImage (app ?s))" by code_simp
  have ht: "truthy (trim (input (chat ?t)))" by code_simp
  have hu: "truthy (trim (input (chat ?u)))" by code_simp
  have ps: "pending ?s = []" by code_simp
  have pt: "pending ?t = []" by code_simp
  have ls: "\<not> isLoading (chat ?s)" by code_simp
  have cs: "present (capturedImage (app ?s)) \<and>
              (includes_str (toLowerCase (input (chat ?s))) ''add'' \<or>
               includes_str (toLowerCase (input (chat ?s))) ''remove'' \<or>
               includes_str (toLowerCase (input (chat ?s))) ''change'' \<or>
               includes_str (toLowerCase (input (chat ?s))) ''filter'')"
    by code_simp
  have ct: "\<not> present (capturedImage (app ?t))" by code_simp
  have gu: "PendingGen '''' Size1K ''1:1'' \<in> set (pending (step PressEnter ?u))" by code_simp
  have cg: "capability_of (PendingGen '''' Size1K ''1:1'') = Generate"
    by (simp add: capability_of_def)
  from hs have "truthy (trim (input (chat ?s))) \<or> present (capturedImage (app ?s))" by simp
  note ths = send_invokes_one_capability [OF this]
  from ths cs ps have e: "map capability_of (pending (step PressEnter ?s)) = [Edit]" by auto
  from ths ls have b: "step ClickSend ?s = step PressEnter ?s" by blast
  from ht have "truthy (trim (input (chat ?t))) \<or> present (capturedImage (app ?t))" by simp
  from send_invokes_one_capability [OF this] ct pt
  have c: "map capability_of (pending (step PressEnter ?t)) = [Chat]" by auto
  from hu have "truthy (trim (input (chat ?u))) \<or> present (capturedImage (app ?u))" by simp
  from send_invokes_one_capability [OF this] gu cg
  have g: "PendingGen '''' Size1K ''1:1'' \<in> set (pending ?u)" by blast
  show ?thesis using hs ht hu e b c gu g by simp
qed

section \<open>Configuration of the chat request\<close>

text \<open>With both options set, the request carries no search tool.\<close>

theorem thinking_suppresses_search:
  "tools (config (sendMessage_request
       \<lparr>history = [], message_opt = ''hello'', image_opt = None,
        useThinking_opt = True, useSearch_opt = True\<rparr>)) = None"
  by (simp add: sendMessage_request_def select_model_def)

text \<open>
  C4 (amended). The request of \<open>sendMessage\<close> carries a thinkingConfig (budget 32768)
  exactly when \<open>useThinking\<close> is set, and the googleSearch tool exactly when \<open>useSearch\<close> is
  set and \<open>useThinking\<close> is not: thinking takes precedence over search.
\<close>

theorem sendMessage_config:
  "thinkingConfig (config (sendMessage_request opts)) =
     (if useThinking_opt opts then Some 32768 else None)
   \<and> tools (config (sendMessage_request opts)) =
     (if useSearch_opt opts \<and> \<not> useThinking_opt opts then Some [GoogleSearch] else None)"
  by (simp add: sendMessage_request_def select_model_def Let_def)

section \<open>The transcript\<close>

lemma step_appends:
  "\<exists>new. messages (chat (step e s)) = messages (chat s) @ new \<and> length new \<le> 1"
proof (cases e)
  case PressEnter
  then show ?thesis by (simp add: start_send_def handleSend_begin_def)
next
  case ClickSend
  then show ?thesis by (simp add: start_send_def handleSend_begin_def)
next
  case ClickGenerate
  then show ?thesis by (simp add: start_gen_def handleGenImage_begin_def)
next
  case (Settle i svc)
  then show ?thesis
    by (simp add: settle_def handleSend_resume_def handleSend_try_def
        handleGenImage_resume_def append_message_def
        split: pending_call.splits send_call.splits sum.splits)
qed simp_all

lemma step_prefix: "prefix (messages (chat s)) (messages (chat (step e s)))"
  using step_appends [of e s] by (auto simp: prefix_def)

text \<open>
  C5. Whatever the events, the transcript before them is a prefix of the transcript after
  them: messages are only appended at the end, none is removed, moved or changed; every
  message has role user or model.
\<close>

theorem transcript_only_grows:
  "prefix (messages (chat s)) (messages (chat (run es s)))
   \<and> list_all (\<lambda>m. role m = User \<or> role m = Model) (messages (chat (run es s)))"
proof
  show "prefix (messages (chat s)) (messages (chat (run es s)))"
  proof (induction es arbitrary: s)
    case Nil
    show ?case by simp
  next
    case (Cons e es)
    have "prefix (messages (chat s)) (messages (chat (step e s)))" by (rule step_prefix)
    also have "prefix \<dots> (messages (chat (run es (step e s))))" by (rule Cons.IH)
    finally show ?case by simp
  qed
next
  have r: "role m = User \<or> role m = Model" for m
    by (cases "role m") simp_all
  show "list_all (\<lambda>m. role m = User \<or> role m = Model) (messages (chat (run es s)))"
    by (simp add: list_all_iff r)
qed

section \<open>Responses without an image\<close>

lemma first_inline_none_iff:
  "first_inline ps = None \<longleftrightarrow> (\<forall>p \<in> set ps. inlineData p = None)"
  by (induction ps) (auto split: option.splits)

text \<open>
  C7. When the response to \<open>editImage\<close> or \<open>generateImage\<close> has no inline image part, the
  function returns null (it does not throw), and its callers go on: \<open>handleSend\<close> and
  \<open>handleGenImage\<close> append a generic model message and reset \<open>isLoading\<close>, the editor sets
  its inline error and resets \<open>isGenerating\<close>.
\<close>

theorem empty_response_yields_null:
  assumes "\<forall>p \<in> set (response_parts resp). inlineData p = None"
  shows "(generateContent svc (editImage_request img p) = Inr resp \<longrightarrow>
            editImage svc img p = Inr None
            \<and> handleSend_resume svc init (CallEdit img p) st =
                (st\<lparr>messages := messages st @
                      [mk_message Model
                         (Some ''I tried to edit the image but couldn't generate a result.'')
                         None None],
                    isLoading := False\<rparr>, present init)
            \<and> handleGenerate_resume svc img p ed =
                (ed\<lparr>error := Some ''Could not generate edit. Try a different prompt.'',
                    isGenerating := False\<rparr>, None))
         \<and> (generateContent svc (generateImage_request q sz ratio) = Inr resp \<longrightarrow>
              generateImage svc q sz ratio = Inr None
              \<and> handleGenImage_resume svc q sz ratio st =
                  st\<lparr>messages := messages st @
                        [mk_message Model (Some ''Failed to generate image.'') None None],
                      isLoading := False\<rparr>)"
proof -
  from assms have n: "first_inline (response_parts resp) = None"
    by (simp add: first_inline_none_iff)
  show ?thesis
    by (simp add: n editImage_def generateImage_def handleSend_resume_def handleSend_try_def
        handleGenerate_resume_def handleGenImage_resume_def append_message_def present_def)
qed

theorem empty_response_yields_null_witness:
  "response_parts text_only = [\<lparr>inlineData = None, part_text = Some ''No image.''\<rparr>]
   \<and> generateContent svc_empty (editImage_request ''data:image/png;base64,AAAA'' ''add a tree'')
       = Inr text_only
   \<and> editImage svc_empty ''data:image/png;base64,AAAA'' ''add a tree'' = Inr None
   \<and> messages (fst (handleSend_resume svc_empty (Some ''data:image/png;base64,AAAA'')
                      (CallEdit ''data:image/png;base64,AAAA'' ''add a tree'') initial_chat))
       = messages initial_chat @
           [mk_message Model (Some ''I tried to edit the image but couldn't generate a result.'')
              None None]
   \<and> error (fst (handleGenerate_resume svc_empty ''data:image/png;base64,AAAA'' ''add a tree''
                    initial_editor))
       = Some ''Could not generate edit. Try a different prompt.''
   \<and> generateContent svc_empty (generateImage_request ''a house'' Size1K ''1:1'') = Inr text_only
   \<and> generateImage svc_empty ''a house'' Size1K ''1:1'' = Inr None
   \<and> messages (handleGenImage_resume svc_empty ''a house'' Size1K ''1:1'' initial_chat)
       = messages initial_chat @ [mk_message Model (Some ''Failed to generate image.'') None None]"
proof -
  have ps: "response_parts text_only = [\<lparr>inlineData = None, part_text = Some ''No image.''\<rparr>]"
    by (simp add: response_parts_def text_only_def)
  have h: "\<forall>p \<in> set (response_parts text_only). inlineData p = None"
    by (simp add: ps)
  have e: "generateContent svc_empty (editImage_request ''data:image/png;base64,AAAA'' ''add a tree'')
             = Inr text_only"
    by (simp add: svc_empty_def)
  have g: "generateContent svc_empty (generateImage_request ''a house'' Size1K ''1:1'') = Inr text_only"
    by (simp add: svc_empty_def)
  show ?thesis
    using ps e g
      empty_response_yields_null [OF h, of svc_empty "''data:image/png;base64,AAAA''" "''add a tree''"
        "Some ''data:image/png;base64,AAAA''" initial_chat initial_editor "''a house''" Size1K "''1:1''"]
    by simp
qed

section \<open>The send guard\<close>

text \<open>
  C8. A send on a blank input (empty or whitespace only) with no image attached does
  nothing: \<open>handleSend\<close> returns at its guard, and transcript, input, \<open>isLoading\<close>, attached
  image and calls in flight are what they were.
\<close>

theorem blank_send_is_noop:
  assumes "\<not> truthy (trim (input (chat s)))" and "\<not> present (capturedImage (app s))"
  shows "handleSend_begin (capturedImage (app s)) (chat s) = (chat s, None)
         \<and> step PressEnter s = s \<and> step ClickSend s = s"
  using assms by (simp add: start_send_def handleSend_begin_def)

theorem blank_send_is_noop_witness:
  "\<not> truthy (trim (input (chat (step (TypeInput ''   '') initial_ui))))
   \<and> \<not> present (capturedImage (app (step (TypeInput ''   '') initial_ui)))
   \<and> step PressEnter (step (TypeInput ''   '') initial_ui) = step (TypeInput ''   '') initial_ui
   \<and> step ClickSend (step (TypeInput ''   '') initial_ui) = step (TypeInput ''   '') initial_ui"
proof -
  let ?s = "step (TypeInput ''   '') initial_ui"
  have h1: "\<not> truthy (trim (input (chat ?s)))" by code_simp
  have h2: "\<not> present (capturedImage (app ?s))" by code_simp
  show ?thesis using h1 h2 blank_send_is_noop [OF h1 h2] by simp
qed

section \<open>The attached image\<close>

lemma settle_send_clears:
  assumes "present img"
  shows "capturedImage (app (settle svc (PendingSend img call) s)) = None"
  using assms by (simp add: settle_def handleSend_resume_def onClearImage_def)

text \<open>
  A send with an image attached starts a call whose handler holds that image; whenever
  that call settles, whatever the service did (an answer, no image, a throw) and whatever
  happened in between, the captured image is null afterwards. So a send that starts after
  the call has settled carries no image.
\<close>

lemma attached_image_cleared_after_send:
  assumes "present (capturedImage (app s))"
  shows "(\<exists>call. pending (step PressEnter s) = pending s @ [PendingSend (capturedImage (app s)) call])
         \<and> (\<forall>s1 i svc call.
               i < length (pending s1) \<and> pending s1 ! i = PendingSend (capturedImage (app s)) call
               \<longrightarrow> capturedImage (app (step (Settle i svc) s1)) = None)
         \<and> (\<forall>svc v. truthy (trim v) \<longrightarrow>
               last (messages (chat (run [PressEnter, Settle (length (pending s)) svc,
                                          TypeInput v, PressEnter] s)))
                 = mk_message User (Some v) None None)"
proof (intro conjI allI impI)
  show "\<exists>call. pending (step PressEnter s) = pending s @ [PendingSend (capturedImage (app s)) call]"
    using assms by (simp add: start_send_def handleSend_begin_def)
next
  fix s1 :: ui and i svc call
  assume "i < length (pending s1) \<and> pending s1 ! i = PendingSend (capturedImage (app s)) call"
  then show "capturedImage (app (step (Settle i svc) s1)) = None"
    using assms by (simp add: settle_send_clears)
next
  fix svc v
  assume v: "truthy (trim v)"
  let ?s1 = "step PressEnter s"
  let ?s2 = "step (Settle (length (pending s)) svc) ?s1"
  from assms obtain call where
    p: "pending ?s1 = pending s @ [PendingSend (capturedImage (app s)) call]"
    by (auto simp: start_send_def handleSend_begin_def)
  then have "capturedImage (app ?s2) = None"
    using assms by (simp add: settle_send_clears)
  then have "last (messages (chat (step PressEnter (step (TypeInput v) ?s2))))
               = mk_message User (Some v) None None"
    using v by (simp add: start_send_def handleSend_begin_def userMsg_of_def present_def)
  then show "last (messages (chat (run [PressEnter, Settle (length (pending s)) svc,
                                          TypeInput v, PressEnter] s)))
                 = mk_message User (Some v) None None"
    by simp
qed

lemma attached_image_cleared_after_send_example:
  "present (capturedImage (app (run [Upload ''data:image/png;base64,AAAA'', TypeInput ''describe''] initial_ui)))
   \<and> pending (run [Upload ''data:image/png;base64,AAAA'', TypeInput ''describe'', PressEnter] initial_ui)
       \<noteq> []
   \<and> capturedImage (app (run [Upload ''data:image/png;base64,AAAA'', TypeInput ''describe'', PressEnter,
                               Settle 0 svc_down] initial_ui)) = None
   \<and> capturedImage (app (run [Upload ''data:image/png;base64,AAAA'', TypeInput ''describe'', PressEnter,
                               Settle 0 svc_empty] initial_ui)) = None
   \<and> last (messages (chat (run [PressEnter, Settle 0 svc_empty, TypeInput ''more'', PressEnter]
                              (run [Upload ''data:image/png;base64,AAAA'', TypeInput ''describe''] initial_ui))))
       = mk_message User (Some ''more'') None None"
proof -
  let ?s = "run [Upload ''data:image/png;base64,AAAA'', TypeInput ''describe''] initial_ui"
  have h: "present (capturedImage (app ?s))" by code_simp
  have l: "length (pending ?s) = 0" by code_simp
  have t: "truthy (trim ''more'')" by code_simp
  note th = attached_image_cleared_after_send [OF h]
  from th obtain call where
    p: "pending (step PressEnter ?s) = pending ?s @ [PendingSend (capturedImage (app ?s)) call]"
    by blast
  have i: "0 < length (pending (step PressEnter ?s))
           \<and> pending (step PressEnter ?s) ! 0 = PendingSend (capturedImage (app ?s)) call"
    using p l by simp
  have c: "capturedImage (app (step (Settle 0 svc) (step PressEnter ?s))) = None" for svc
    using th i by blast
  have m: "last (messages (chat (run [PressEnter, Settle 0 svc_empty, TypeInput ''more'', PressEnter] ?s)))
             = mk_message User (Some ''more'') None None"
    using th t l by metis
  show ?thesis using h p c [of svc_down] c [of svc_empty] m by simp
qed

text \<open>
  C9. A send with an image attached clears the attached image once its call has completed,
  so that the image goes out with exactly one send. The image is cleared only when the call
  settles, and the Enter key starts a send whatever \<open>isLoading\<close> is: with an image
  attached, Enter pressed twice starts two calls that both carry the image, and the
  transcript shows it in two user messages.
\<close>

theorem image_sent_twice_on_double_enter:
  "map sent_image
     (pending (run [Upload ''data:image/png;base64,AAAA'', TypeInput ''describe'',
                    PressEnter, PressEnter] initial_ui))
     = [Some ''data:image/png;base64,AAAA'', Some ''data:image/png;base64,AAAA'']
   \<and> map image_msg
         (messages (chat (run [Upload ''data:image/png;base64,AAAA'', TypeInput ''describe'',
                               PressEnter, PressEnter] initial_ui)))
     = [None, Some ''data:image/png;base64,AAAA'', Some ''data:image/png;base64,AAAA'']"
  by code_simp

section \<open>A session of the image editor\<close>

lemma handleGenerate_resume_cases:
  assumes "handleGenerate_resume svc src p ed = (ed1, res)"
  shows "(res = None \<and> generatedImage ed1 = generatedImage ed)
         \<or> (\<exists>g. res = Some g \<and> generatedImage ed1 = Some g \<and> editImage svc src p = Inr (Some g))"
  using assms
  by (auto simp: handleGenerate_resume_def split: sum.splits option.splits if_splits)

text \<open>What one step of a session can do to the outside and to the generated image.\<close>

lemma ed_step_cases:
  assumes "ed_step e s = (s1, a)"
  shows "(a = [] \<and> ed_app s1 = ed_app s
            \<and> (generatedImage (editor s1) = generatedImage (editor s)
                \<or> generatedImage (editor s1) = None))
         \<or> (\<exists>src p. a = [CallsEditImage src p] \<and> ed_app s1 = ed_app s
               \<and> generatedImage (editor s1) = generatedImage (editor s))
         \<or> (\<exists>g. a = [EditSucceeded g] \<and> ed_app s1 = ed_app s
               \<and> generatedImage (editor s1) = Some g)
         \<or> (\<exists>g. a = [CallsOnSave g] \<and> generatedImage (editor s) = Some g \<and> truthy g
               \<and> editor s1 = editor s)
         \<or> (a = [CallsOnCancel] \<and> editor s1 = editor s
               \<and> capturedImage (ed_app s1) = capturedImage (ed_app s))"
proof (cases "mounted s")
  case False
  with assms show ?thesis by (simp add: ed_step_def)
next
  case True
  show ?thesis
  proof (cases e)
    case (EdSettle i svc)
    show ?thesis
    proof (cases "i < length (ed_pending s)")
      case False
      with assms True EdSettle show ?thesis by (simp add: ed_step_def)
    next
      case lt: True
      obtain src p where sp: "ed_pending s ! i = (src, p)" by (cases "ed_pending s ! i")
      obtain ed1 res where r: "handleGenerate_resume svc src p (editor s) = (ed1, res)"
        by (cases "handleGenerate_resume svc src p (editor s)")
      from assms True EdSettle lt sp r
      have s1: "s1 = s\<lparr>editor := ed1, ed_pending := remove_nth i (ed_pending s)\<rparr>"
        and a: "a = (case res of None \<Rightarrow> [] | Some g \<Rightarrow> [EditSucceeded g])"
        by (simp_all add: ed_step_def ed_settle_def)
      from handleGenerate_resume_cases [OF r] s1 a show ?thesis by auto
    qed
  next
    case EdClickSave
    with assms True show ?thesis
      by (auto simp: ed_step_def handleSave_def present_def split: if_splits option.splits)
  qed (use assms True in \<open>auto simp: ed_step_def ed_start_def handleGenerate_begin_def onCancel_def
         split: if_splits\<close>)
qed

lemma ed_run_saves_follow_edits:
  assumes "\<forall>g. generatedImage (editor s) = Some g \<longrightarrow> g \<in> set seen"
    and "ed_run es s = (s', acts)"
  shows "saves_follow_edits seen acts"
  using assms
proof (induction es arbitrary: s s' seen acts)
  case Nil
  then show ?case by simp
next
  case (Cons e es)
  obtain s1 a where st: "ed_step e s = (s1, a)" by (cases "ed_step e s")
  obtain s2 rest where rn: "ed_run es s1 = (s2, rest)" by (cases "ed_run es s1")
  from Cons.prems(2) st rn have acts: "acts = a @ rest" by simp
  from ed_step_cases [OF st] show ?case
  proof (elim disjE exE conjE)
    assume "a = []" "generatedImage (editor s1) = generatedImage (editor s)"
    with Cons.IH [OF _ rn, of seen] Cons.prems(1) acts show ?thesis by simp
  next
    assume "a = []" "generatedImage (editor s1) = None"
    with Cons.IH [OF _ rn, of seen] acts show ?thesis by simp
  next
    fix src p
    assume "a = [CallsEditImage src p]" "generatedImage (editor s1) = generatedImage (editor s)"
    with Cons.IH [OF _ rn, of seen] Cons.prems(1) acts show ?thesis by simp
  next
    fix g
    assume "a = [EditSucceeded g]" "generatedImage (editor s1) = Some g"
    with Cons.IH [OF _ rn, of "g # seen"] acts show ?thesis by simp
  next
    fix g
    assume "a = [CallsOnSave g]" "generatedImage (editor s) = Some g" "editor s1 = editor s"
    with Cons.IH [OF _ rn, of seen] Cons.prems(1) acts show ?thesis by simp
  next
    assume "a = [CallsOnCancel]" "editor s1 = editor s"
    with Cons.IH [OF _ rn, of seen] Cons.prems(1) acts show ?thesis by simp
  qed
qed

lemma saves_follow_edits_split:
  assumes "saves_follow_edits seen acts" and "acts = pre @ CallsOnSave g # post"
  shows "g \<in> set seen \<or> EditSucceeded g \<in> set pre"
  using assms
proof (induction pre arbitrary: seen acts)
  case Nil
  then show ?case by simp
next
  case (Cons x pre)
  then show ?case by (cases x) fastforce+
qed

lemma ed_run_no_edit_keeps_image:
  assumes "\<not> present (generatedImage (editor s))"
    and "ed_run es s = (s', acts)"
    and "\<forall>g. EditSucceeded g \<notin> set acts"
  shows "capturedImage (ed_app s') = capturedImage (ed_app s)"
  using assms
proof (induction es arbitrary: s s' acts)
  case Nil
  then show ?case by simp
next
  case (Cons e es)
  obtain s1 a where st: "ed_step e s = (s1, a)" by (cases "ed_step e s")
  obtain s2 rest where rn: "ed_run es s1 = (s2, rest)" by (cases "ed_run es s1")
  from Cons.prems(2) st rn have acts: "acts = a @ rest" and s': "s' = s2" by simp_all
  from Cons.prems(3) acts have nr: "\<forall>g. EditSucceeded g \<notin> set rest"
    and na: "\<forall>g. EditSucceeded g \<notin> set a" by simp_all
  from ed_step_cases [OF st] na Cons.prems(1)
  have keep: "capturedImage (ed_app s1) = capturedImage (ed_app s)
              \<and> \<not> present (generatedImage (editor s1))"
    by (auto simp: present_def)
  with Cons.IH [OF _ rn nr] s' show ?case by simp
qed

text \<open>
  C10. In every session of the editor, from its opening on: each \<open>onSave\<close> passes an image
  that an earlier successful edit of the session produced; with no successful edit the
  captured image stays what it was, saves and the closing included; each \<open>editImage\<close> call
  takes the generated image as its source, or \<open>imageSrc\<close> when there is none; a successful
  edit is the answer of \<open>editImage\<close> to a call in flight and becomes the generated image;
  closing leaves the captured image unchanged.
\<close>

theorem editor_saves_only_generated:
  assumes "ed_run es (open_session a) = (s, acts)"
  shows "(\<forall>pre g post. acts = pre @ CallsOnSave g # post \<longrightarrow> EditSucceeded g \<in> set pre)
         \<and> ((\<forall>g. EditSucceeded g \<notin> set acts) \<longrightarrow> capturedImage (ed_app s) = capturedImage a)
         \<and> (\<forall>e s1 src p. CallsEditImage src p \<in> set (snd (ed_step e s1)) \<longrightarrow>
               src = or_default (generatedImage (editor s1)) (imageSrc s1))
         \<and> (\<forall>e s1 g. EditSucceeded g \<in> set (snd (ed_step e s1)) \<longrightarrow>
               generatedImage (editor (fst (ed_step e s1))) = Some g
               \<and> (\<exists>i svc. e = EdSettle i svc \<and> i < length (ed_pending s1)
                     \<and> editImage svc (fst (ed_pending s1 ! i)) (snd (ed_pending s1 ! i))
                         = Inr (Some g)))
         \<and> (\<forall>s1. capturedImage (ed_app (fst (ed_step EdClose s1))) = capturedImage (ed_app s1))"
proof (intro conjI allI impI)
  fix pre g post
  assume d: "acts = pre @ CallsOnSave g # post"
  have "saves_follow_edits [] acts"
    by (rule ed_run_saves_follow_edits [OF _ assms])
       (simp add: open_session_def initial_editor_def)
  from saves_follow_edits_split [OF this d] show "EditSucceeded g \<in> set pre" by simp
next
  assume "\<forall>g. EditSucceeded g \<notin> set acts"
  with ed_run_no_edit_keeps_image [OF _ assms]
  show "capturedImage (ed_app s) = capturedImage a"
    by (simp add: open_session_def initial_editor_def present_def handleEditClick_def)
next
  fix e and s1 :: editor_ui and src p
  assume "CallsEditImage src p \<in> set (snd (ed_step e s1))"
  then show "src = or_default (generatedImage (editor s1)) (imageSrc s1)"
    by (cases e)
       (auto simp: ed_step_def ed_start_def handleGenerate_begin_def ed_settle_def handleSave_def
          split: if_splits prod.splits option.splits)
next
  fix e and s1 :: editor_ui and g
  assume h: "EditSucceeded g \<in> set (snd (ed_step e s1))"
  then show "generatedImage (editor (fst (ed_step e s1))) = Some g"
    by (cases e)
       (auto simp: ed_step_def ed_start_def handleGenerate_begin_def ed_settle_def handleSave_def
          handleGenerate_resume_def
          split: if_splits prod.splits option.splits sum.splits)
  from h show "\<exists>i svc. e = EdSettle i svc \<and> i < length (ed_pending s1)
                     \<and> editImage svc (fst (ed_pending s1 ! i)) (snd (ed_pending s1 ! i))
                         = Inr (Some g)"
    by (cases e)
       (auto simp: ed_step_def ed_start_def handleGenerate_begin_def ed_settle_def handleSave_def
          handleGenerate_resume_def
          split: if_splits prod.splits option.splits sum.splits)
next
  fix s1 :: editor_ui
  show "capturedImage (ed_app (fst (ed_step EdClose s1))) = capturedImage (ed_app s1)"
    by (simp add: ed_step_def onCancel_def)
qed

theorem editor_saves_only_generated_witness:
  "snd (ed_run [EdType ''add a tower'', EdPressEnter, EdSettle 0 (svc_image ''BBBB''), EdClickSave]
          (open_session uploaded))
     = [CallsEditImage ''data:image/png;base64,AAAA'' ''add a tower'',
        EditSucceeded ''data:image/png;base64,BBBB'',
        CallsOnSave ''data:image/png;base64,BBBB'']
   \<and> EditSucceeded ''data:image/png;base64,BBBB''
       \<in> set [CallsEditImage ''data:image/png;base64,AAAA'' ''add a tower'',
               EditSucceeded ''data:image/png;base64,BBBB'']
   \<and> snd (ed_run [EdClickSave, EdClose] (open_session uploaded)) = [CallsOnCancel]
   \<and> capturedImage (ed_app (fst (ed_run [EdClickSave, EdClose] (open_session uploaded))))
       = capturedImage uploaded
   \<and> CallsEditImage ''data:image/png;base64,AAAA'' ''add a tower''
       \<in> set (snd (ed_step EdPressEnter
                      (fst (ed_run [EdType ''add a tower''] (open_session uploaded)))))
   \<and> ''data:image/png;base64,AAAA''
       = or_default (generatedImage (editor (fst (ed_run [EdType ''add a tower''] (open_session uploaded)))))
           (imageSrc (fst (ed_run [EdType ''add a tower''] (open_session uploaded))))
   \<and> EditSucceeded ''data:image/png;base64,BBBB''
       \<in> set (snd (ed_step (EdSettle 0 (svc_image ''BBBB''))
                      (fst (ed_run [EdType ''add a tower'', EdPressEnter] (open_session uploaded)))))
   \<and> generatedImage (editor (fst (ed_step (EdSettle 0 (svc_image ''BBBB''))
                      (fst (ed_run [EdType ''add a tower'', EdPressEnter] (open_session uploaded))))))
       = Some ''data:image/png;base64,BBBB''"
proof -
  let ?es = "[EdType ''add a tower'', EdPressEnter, EdSettle 0 (svc_image ''BBBB''), EdClickSave]"
  let ?r = "ed_run ?es (open_session uploaded)"
  let ?q = "ed_run [EdClickSave, EdClose] (open_session uploaded)"
  let ?s1 = "fst (ed_run [EdType ''add a tower''] (open_session uploaded))"
  let ?s2 = "fst (ed_run [EdType ''add a tower'', EdPressEnter] (open_session uploaded))"
  have r: "?r = (fst ?r, snd ?r)" by simp
  have q: "?q = (fst ?q, snd ?q)" by simp
  have acts: "snd ?r = [CallsEditImage ''data:image/png;base64,AAAA'' ''add a tower'',
                        EditSucceeded ''data:image/png;base64,BBBB''] @
                       CallsOnSave ''data:image/png;base64,BBBB'' # []"
    by code_simp
  have none: "snd ?q = [CallsOnCancel]" by code_simp
  have call: "CallsEditImage ''data:image/png;base64,AAAA'' ''add a tower''
                \<in> set (snd (ed_step EdPressEnter ?s1))"
    by code_simp
  have ok: "EditSucceeded ''data:image/png;base64,BBBB''
              \<in> set (snd (ed_step (EdSettle 0 (svc_image ''BBBB'')) ?s2))"
    by code_simp
  note th = editor_saves_only_generated [OF r]
  from th acts
  have m: "EditSucceeded ''data:image/png;base64,BBBB''
             \<in> set [CallsEditImage ''data:image/png;base64,AAAA'' ''add a tower'',
                     EditSucceeded ''data:image/png;base64,BBBB'']"
    by blast
  from editor_saves_only_generated [OF q] none
  have k: "capturedImage (ed_app (fst ?q)) = capturedImage uploaded"
    by simp
  from th call
  have src: "''data:image/png;base64,AAAA'' = or_default (generatedImage (editor ?s1)) (imageSrc ?s1)"
    by blast
  from th ok
  have gen: "generatedImage (editor (fst (ed_step (EdSettle 0 (svc_image ''BBBB'')) ?s2)))
               = Some ''data:image/png;base64,BBBB''"
    by blast
  show ?thesis using acts none m k call src ok gen by simp
qed

end
